theory Spec2Isabelle
  imports
    Main
    "HOL-Library.Word"
    "HOL-Library.Multiset"
    "HOL-Library.Char_ord"
    "HOL-Library.List_Lexorder"
begin

section \<open>The debugger settings of Qt Creator (debuggeractions.cpp)\<close>

text \<open>
  The development follows \<^verbatim>\<open>src/plugins/debugger/debuggeractions.cpp\<close>. The class
  \<^verbatim>\<open>DebuggerSettings\<close> holds a registry of actions, \<^verbatim>\<open>QHash<int, SavedAction *> m_items\<close>,
  and the multi-map \<^verbatim>\<open>m_gdbBinaryToolChainMap\<close> from gdb binaries to tool chain numbers,
  which \<^verbatim>\<open>writeSettings\<close> flattens into a \<^verbatim>\<open>QSettings\<close> store and
  \<^verbatim>\<open>gdbBinaryToolChainMapFromSettings\<close> reads back.
\<close>

subsection \<open>Machine integers, pointers and errors\<close>

text \<open>
  A C++ \<^verbatim>\<open>int\<close> that is stored is a 32-bit word, read as two's complement by \<open>sint\<close>.
  A \<^verbatim>\<open>SavedAction *\<close> is an address, the null pointer being \<open>0\<close>; the objects live in a heap, a partial map from addresses to objects.
  Whatever C++ leaves undefined (calling a member through a null or dangling pointer,
  \<^verbatim>\<open>back()\<close> of an empty list, overflow of a signed loop counter) is an error value.
\<close>

type_synonym cint = "32 word"

type_synonym ptr = nat

datatype error =
    NullPointerDereference
  | DanglingPointer
  | EmptyListAccess
  | SignedOverflow

definition INT_MAX :: int where
  "INT_MAX = 2147483647"

definition deref :: "(ptr \<rightharpoonup> 'a) \<Rightarrow> ptr \<Rightarrow> error + 'a" where
  "deref heap p =
     (if p = 0 then Inl NullPointerDereference
      else case heap p of None \<Rightarrow> Inl DanglingPointer | Some a \<Rightarrow> Inr a)"

subsection \<open>The registry of actions\<close>

text \<open>
  \<^verbatim>\<open>Utils::SavedAction\<close> is declared in \<^verbatim>\<open>utils/savedaction.h\<close>, which is not among the
  sources. The record has the attributes this file reads through its accessors
  (\<^verbatim>\<open>value()\<close>, \<^verbatim>\<open>defaultValue()\<close>, \<^verbatim>\<open>settingsKey()\<close>); the type \<open>'v\<close> stands for
  \<^verbatim>\<open>QVariant\<close>, whose conversions \<^verbatim>\<open>toBool()\<close> and \<^verbatim>\<open>toString()\<close> are parameters of the
  functions that call them.
\<close>

record 'v SavedAction =
  m_value :: 'v
  m_defaultValue :: 'v
  m_settingsKey :: string

text \<open>
  A \<^verbatim>\<open>QHash<int, SavedAction *>\<close> is an association list with one entry for each key. The
  order in which a \<^verbatim>\<open>QHash\<close> is traversed is not specified by Qt; the list fixes one.
\<close>

type_synonym QHash = "(cint \<times> ptr) list"

definition QHash_contains :: "QHash \<Rightarrow> cint \<Rightarrow> bool" where
  "QHash_contains h k = (map_of h k \<noteq> None)"

definition QHash_value :: "QHash \<Rightarrow> cint \<Rightarrow> ptr \<Rightarrow> ptr" where
  "QHash_value h k dflt = (case map_of h k of None \<Rightarrow> dflt | Some v \<Rightarrow> v)"

text \<open>\<^verbatim>\<open>h[k] = v\<close>: replaces the value of an existing key, adds the key otherwise.\<close>

fun QHash_assign :: "cint \<Rightarrow> ptr \<Rightarrow> QHash \<Rightarrow> QHash" where
  "QHash_assign k v [] = [(k, v)]"
| "QHash_assign k v ((k', v') # h) =
     (if k' = k then (k, v) # h else (k', v') # QHash_assign k v h)"

type_synonym GdbBinaryToolChainMap = "(string \<times> cint) list"

record DebuggerSettings =
  m_items :: QHash
  m_gdbBinaryToolChainMap :: GdbBinaryToolChainMap

text \<open>
  \<^verbatim>\<open>QTC_ASSERT(cond, action)\<close> comes from \<^verbatim>\<open>utils/qtcassert.h\<close>, which is not among the
  sources either. Its uses here (\<^verbatim>\<open>QTC_ASSERT(c, qDebug() << ...; return 0)\<close>) show the
  contract: when \<open>cond\<close> is false a diagnostic is printed and \<open>action\<close> is executed; the
  program is not aborted. Diagnostic output (\<^verbatim>\<open>qDebug\<close>, \<^verbatim>\<open>qWarning\<close>) is not part of the
  modelled state, but the member calls that produce it are: they dereference their
  pointer.

  \<^verbatim>\<open>
  void DebuggerSettings::insertItem(int code, SavedAction *item)
  {
      QTC_ASSERT(!m_items.contains(code),
          qDebug() << code << item->toString(); return);
      QTC_ASSERT(item->settingsKey().isEmpty() || item->defaultValue().isValid(),
          qDebug() << "NO DEFAULT VALUE FOR " << item->settingsKey());
      m_items[code] = item;
  }
  \<close>
\<close>

definition insertItem ::
  "(ptr \<rightharpoonup> 'v SavedAction) \<Rightarrow> cint \<Rightarrow> ptr \<Rightarrow> DebuggerSettings \<Rightarrow> error + DebuggerSettings"
where
  "insertItem heap code item st =
     (if QHash_contains (m_items st) code then
        (case deref heap item of
           Inl e \<Rightarrow> Inl e
         | Inr a \<Rightarrow> Inr st)
      else
        (case deref heap item of
           Inl e \<Rightarrow> Inl e
         | Inr a \<Rightarrow> Inr (st\<lparr>m_items := QHash_assign code item (m_items st)\<rparr>)))"

text \<open>
  \<^verbatim>\<open>
  SavedAction *DebuggerSettings::item(int code) const
  {
      QTC_ASSERT(m_items.value(code, 0), qDebug() << "CODE: " << code; return 0);
      return m_items.value(code, 0);
  }
  \<close>
  The member function is \<^verbatim>\<open>const\<close> and \<^verbatim>\<open>QHash::value\<close> does not insert: \<open>item\<close> is a
  function of the settings object and has no state to return.
\<close>

definition item :: "DebuggerSettings \<Rightarrow> cint \<Rightarrow> ptr" where
  "item st code =
     (if QHash_value (m_items st) code 0 = 0 then 0
      else QHash_value (m_items st) code 0)"

text \<open>
  The three free functions go through \<^verbatim>\<open>DebuggerSettings::instance()\<close>, the singleton; the
  model takes the singleton object as an argument.
\<close>

definition theDebuggerAction :: "DebuggerSettings \<Rightarrow> cint \<Rightarrow> ptr" where
  "theDebuggerAction inst code = item inst code"

definition theDebuggerBoolSetting ::
  "('v \<Rightarrow> bool) \<Rightarrow> (ptr \<rightharpoonup> 'v SavedAction) \<Rightarrow> DebuggerSettings \<Rightarrow> cint \<Rightarrow> error + bool"
where
  "theDebuggerBoolSetting toBool heap inst code =
     (case deref heap (item inst code) of
        Inl e \<Rightarrow> Inl e
      | Inr a \<Rightarrow> Inr (toBool (m_value a)))"

definition theDebuggerStringSetting ::
  "('v \<Rightarrow> string) \<Rightarrow> (ptr \<rightharpoonup> 'v SavedAction) \<Rightarrow> DebuggerSettings \<Rightarrow> cint \<Rightarrow> error + string"
where
  "theDebuggerStringSetting toString heap inst code =
     (case deref heap (item inst code) of
        Inl e \<Rightarrow> Inl e
      | Inr a \<Rightarrow> Inr (toString (m_value a)))"

subsection \<open>Strings and numbers of the Qt library\<close>

text \<open>
  A \<^verbatim>\<open>QString\<close> is a list of characters. The functions of this subsection belong to Qt, not
  to the repository; they follow Qt's documentation: \<^verbatim>\<open>QString::number(int)\<close> prints a
  decimal numeral with a leading minus sign for a negative number; \<^verbatim>\<open>QString::toInt()\<close>
  skips surrounding white space, reads an optional sign and decimal digits, and yields
  \<open>0\<close> when the string is no numeral or the number does not fit an \<^verbatim>\<open>int\<close>;
  \<^verbatim>\<open>QString::split(sep)\<close> keeps empty parts, so the empty string splits into one empty
  token.
\<close>

definition isSpace :: "char \<Rightarrow> bool" where
  "isSpace c = (c \<in> set [CHR '' '', CHR 0x09, CHR 0x0A, CHR 0x0B, CHR 0x0C, CHR 0x0D])"

definition isDigit :: "char \<Rightarrow> bool" where
  "isDigit c = (CHR ''0'' \<le> c \<and> c \<le> CHR ''9'')"

definition digit_char :: "int \<Rightarrow> char" where
  "digit_char d = char_of (of_char (CHR ''0'') + d)"

definition digit_value :: "char \<Rightarrow> int" where
  "digit_value c = of_char c - of_char (CHR ''0'')"

function decimal :: "int \<Rightarrow> string" where
  "decimal n = (if n < 10 then [digit_char n] else decimal (n div 10) @ [digit_char (n mod 10)])"
  by pat_completeness auto
termination
  by (relation "measure nat") auto

declare decimal.simps [simp del]

definition QString_number :: "int \<Rightarrow> string" where
  "QString_number n = (if n < 0 then CHR ''-'' # decimal (- n) else decimal n)"

definition trimmed :: "string \<Rightarrow> string" where
  "trimmed s = rev (dropWhile isSpace (rev (dropWhile isSpace s)))"

definition parse_digits :: "string \<Rightarrow> int option" where
  "parse_digits s =
     (if s \<noteq> [] \<and> list_all isDigit s
      then Some (foldl (\<lambda>a c. 10 * a + digit_value c) 0 s) else None)"

definition parse_int :: "string \<Rightarrow> int option" where
  "parse_int s =
     (case s of
        [] \<Rightarrow> None
      | c # r \<Rightarrow>
          if c = CHR ''-'' then map_option uminus (parse_digits r)
          else if c = CHR ''+'' then parse_digits r
          else parse_digits s)"

definition QString_toInt :: "string \<Rightarrow> cint" where
  "QString_toInt s =
     (case parse_int (trimmed s) of
        None \<Rightarrow> 0
      | Some n \<Rightarrow> if - 2147483648 \<le> n \<and> n \<le> 2147483647 then word_of_int n else 0)"

fun QString_split :: "char \<Rightarrow> string \<Rightarrow> string list" where
  "QString_split sep [] = [[]]"
| "QString_split sep (c # s) =
     (if c = sep then [] # QString_split sep s
      else (c # hd (QString_split sep s)) # tl (QString_split sep s))"

subsection \<open>The multi-map from gdb binaries to tool chains\<close>

text \<open>
  \<^verbatim>\<open>GdbBinaryToolChainMap\<close> is a \<^verbatim>\<open>QMultiMap<QString, int>\<close> (the typedef is in
  \<^verbatim>\<open>debuggeractions.h\<close>, not among the sources; this file inserts one key several times
  and walks runs of equal keys). The model is the list of its (key, value) pairs in
  iteration order: ascending keys, and for one key the most recently inserted value
  first. \<^verbatim>\<open>insert\<close> therefore puts the new pair before the first pair whose key is not
  smaller; \<^verbatim>\<open>key(value)\<close> is the first key with that value, or the empty string; and
  \<^verbatim>\<open>operator==\<close>, which compares the pairs in iteration order, is equality of the lists.
\<close>

fun QMultiMap_insert :: "string \<Rightarrow> cint \<Rightarrow> GdbBinaryToolChainMap \<Rightarrow> GdbBinaryToolChainMap" where
  "QMultiMap_insert k v [] = [(k, v)]"
| "QMultiMap_insert k v ((k', v') # m) =
     (if k' < k then (k', v') # QMultiMap_insert k v m else (k, v) # (k', v') # m)"

fun QMultiMap_key :: "GdbBinaryToolChainMap \<Rightarrow> cint \<Rightarrow> string" where
  "QMultiMap_key [] v = []"
| "QMultiMap_key ((k, v') # m) v = (if v' = v then k else QMultiMap_key m v)"

subsection \<open>The settings store\<close>

text \<open>
  A \<^verbatim>\<open>QSettings\<close> object is a map from full keys (\<^verbatim>\<open>group/key\<close>) to values; the model keeps
  of each value the string that \<^verbatim>\<open>value(key).toString()\<close> returns. A key that is absent
  reads as the empty string. \<^verbatim>\<open>beginGroup(g); setValue(k, v); endGroup()\<close> writes the
  key \<^verbatim>\<open>g/k\<close>, and \<^verbatim>\<open>beginGroup(g); remove(QString())\<close> removes the group \<open>g\<close>: the key
  \<open>g\<close> and every key that starts with \<^verbatim>\<open>g/\<close>.
\<close>

type_synonym QSettings = "string \<rightharpoonup> string"

definition QSettings_value :: "QSettings \<Rightarrow> string \<Rightarrow> string" where
  "QSettings_value settings key = (case settings key of None \<Rightarrow> [] | Some v \<Rightarrow> v)"

definition QSettings_setValue :: "string \<Rightarrow> string \<Rightarrow> string \<Rightarrow> QSettings \<Rightarrow> QSettings" where
  "QSettings_setValue grp key v settings = settings(grp @ [CHR ''/''] @ key \<mapsto> v)"

definition inGroup :: "string \<Rightarrow> string \<Rightarrow> bool" where
  "inGroup grp key =
     (key = grp \<or> take (length grp + 1) key = grp @ [CHR ''/''])"

definition QSettings_removeGroup :: "string \<Rightarrow> QSettings \<Rightarrow> QSettings" where
  "QSettings_removeGroup grp settings =
     (\<lambda>key. if inGroup grp key then None else settings key)"

definition gdbBinariesSettingsGroupC :: string where
  "gdbBinariesSettingsGroupC = ''GdbBinaries21''"

definition debugModeGdbBinaryKeyC :: string where
  "debugModeGdbBinaryKeyC = ''GdbBinary''"

subsection \<open>Reading the map: gdbBinaryToolChainMapFromSettings\<close>

text \<open>
  The tool chain numbers \<^verbatim>\<open>ProjectExplorer::ToolChain::GCC\<close>, \<^verbatim>\<open>LINUX_ICC\<close>, \<^verbatim>\<open>OTHER\<close> and
  \<^verbatim>\<open>UNKNOWN\<close> (declared in \<^verbatim>\<open>projectexplorer/toolchain.h\<close>, not among the sources) and
  the build switch \<^verbatim>\<open>Q_OS_UNIX\<close> are parameters.
\<close>

record platform =
  Q_OS_UNIX :: bool
  GCC :: cint
  LINUX_ICC :: cint
  OTHER :: cint
  UNKNOWN :: cint

text \<open>
  The body of the inner \<^verbatim>\<open>foreach\<close>:
  \<^verbatim>\<open>
  const int toolChain = t.toInt();
  const QString predefinedGdb = gdbBinaryToolChainMap.key(toolChain);
  if (predefinedGdb.isEmpty()) {
      gdbBinaryToolChainMap.insert(binary, toolChain);
  } else { ... qWarning("%s", qPrintable(msg)); }
  \<close>
\<close>

definition addToolChain ::
  "string \<Rightarrow> GdbBinaryToolChainMap \<Rightarrow> string \<Rightarrow> GdbBinaryToolChainMap"
where
  "addToolChain binary gdbBinaryToolChainMap t =
     (let toolChain = QString_toInt t;
          predefinedGdb = QMultiMap_key gdbBinaryToolChainMap toolChain
      in if predefinedGdb = [] then QMultiMap_insert binary toolChain gdbBinaryToolChainMap
         else gdbBinaryToolChainMap)"

definition keyRoot :: string where
  "keyRoot = gdbBinariesSettingsGroupC @ [CHR ''/''] @ debugModeGdbBinaryKeyC"

text \<open>
  The loop \<^verbatim>\<open>for (int i = 1; ; i++)\<close> with its two \<^verbatim>\<open>break\<close>s. The counter is an \<^verbatim>\<open>int\<close>:
  \<^verbatim>\<open>i++\<close> at \<open>INT_MAX\<close> is undefined, which the model reports as \<open>SignedOverflow\<close>.
  \<^verbatim>\<open>
  const QString value = settings->value(keyRoot + QString::number(i)).toString();
  if (value.isEmpty())
      break;
  QStringList tokens = value.split(separator);
  if (tokens.size() < 2)
      break;
  const QString binary = tokens.front();
  tokens.pop_front();
  foreach(const QString &t, tokens) { ... }
  \<close>
\<close>

function readGdbBinaries ::
  "QSettings \<Rightarrow> int \<Rightarrow> GdbBinaryToolChainMap \<Rightarrow> error + GdbBinaryToolChainMap"
where
  "readGdbBinaries settings i gdbBinaryToolChainMap =
     (let value = QSettings_value settings (keyRoot @ QString_number i) in
      if value = [] then Inr gdbBinaryToolChainMap
      else
        let tokens = QString_split (CHR '','') value in
        if length tokens < 2 then Inr gdbBinaryToolChainMap
        else
          let binary = hd tokens;
              m' = foldl (addToolChain binary) gdbBinaryToolChainMap (tl tokens)
          in if INT_MAX \<le> i then Inl SignedOverflow
             else readGdbBinaries settings (i + 1) m')"
  by pat_completeness auto
termination
  by (relation "measure (\<lambda>(settings, i, m). nat (INT_MAX - i))") auto

declare readGdbBinaries.simps [simp del]

definition gdbBinaryToolChainMapFromSettings ::
  "platform \<Rightarrow> QSettings \<Rightarrow> error + GdbBinaryToolChainMap"
where
  "gdbBinaryToolChainMapFromSettings pf settings =
     (case readGdbBinaries settings 1 [] of
        Inl e \<Rightarrow> Inl e
      | Inr gdbBinaryToolChainMap \<Rightarrow>
          if Q_OS_UNIX pf \<and> gdbBinaryToolChainMap = [] then
            Inr (QMultiMap_insert ''gdb'' (UNKNOWN pf)
                  (QMultiMap_insert ''gdb'' (OTHER pf)
                    (QMultiMap_insert ''gdb'' (LINUX_ICC pf)
                      (QMultiMap_insert ''gdb'' (GCC pf) []))))
          else Inr gdbBinaryToolChainMap)"

subsection \<open>Writing the map: writeSettings\<close>

text \<open>
  \<^verbatim>\<open>SavedAction::writeSettings\<close> is not among the sources; what one action writes into
  the store is the parameter \<open>saWrite\<close>. The \<^verbatim>\<open>foreach\<close> over \<open>m_items\<close> calls it
  through each registered pointer.
\<close>

fun writeItems ::
  "('a \<Rightarrow> QSettings \<Rightarrow> QSettings) \<Rightarrow> (ptr \<rightharpoonup> 'a) \<Rightarrow> ptr list \<Rightarrow> QSettings \<Rightarrow> error + QSettings"
where
  "writeItems saWrite heap [] settings = Inr settings"
| "writeItems saWrite heap (p # ps) settings =
     (case deref heap p of
        Inl e \<Rightarrow> Inl e
      | Inr a \<Rightarrow> writeItems saWrite heap ps (saWrite a settings))"

text \<open>
  The loop over the map that builds \<open>settingsList\<close>:
  \<^verbatim>\<open>
  if (it.key() != lastBinary) {
      lastBinary = it.key(); // Start new entry with first toolchain
      settingsList.push_back(lastBinary);
  }
  settingsList.back().append(separator); // Append toolchain to last binary
  settingsList.back().append(QString::number(it.value()));
  \<close>
  \<open>lastBinary\<close> starts as the null string, which Qt compares equal to the empty string:
  for a first key that is empty nothing is pushed and \<^verbatim>\<open>back()\<close> is called on an empty
  list.
\<close>

fun buildSettingsList ::
  "string \<Rightarrow> string list \<Rightarrow> GdbBinaryToolChainMap \<Rightarrow> error + string list"
where
  "buildSettingsList lastBinary settingsList [] = Inr settingsList"
| "buildSettingsList lastBinary settingsList ((key, val) # rest) =
     (let lastBinary' = (if key \<noteq> lastBinary then key else lastBinary);
          settingsList' = (if key \<noteq> lastBinary then settingsList @ [key] else settingsList)
      in if settingsList' = [] then Inl EmptyListAccess
         else buildSettingsList lastBinary'
                (butlast settingsList' @
                   [last settingsList' @ [CHR '',''] @ QString_number (sint val)])
                rest)"

text \<open>
  \<^verbatim>\<open>
  for (int i = 0; i < count; i++)
      settings->setValue(keyRoot + QString::number(i + 1), settingsList.at(i));
  \<close>
\<close>

definition writeSettingsList :: "string list \<Rightarrow> QSettings \<Rightarrow> QSettings" where
  "writeSettingsList settingsList settings =
     foldl (\<lambda>s i. QSettings_setValue gdbBinariesSettingsGroupC
                     (debugModeGdbBinaryKeyC @ QString_number (int i + 1)) (settingsList ! i) s)
       settings [0..<length settingsList]"

definition writeSettings ::
  "platform \<Rightarrow> ('v SavedAction \<Rightarrow> QSettings \<Rightarrow> QSettings) \<Rightarrow> (ptr \<rightharpoonup> 'v SavedAction) \<Rightarrow>
     DebuggerSettings \<Rightarrow> QSettings \<Rightarrow> error + QSettings"
where
  "writeSettings pf saWrite heap st settings =
     (case writeItems saWrite heap (map snd (m_items st)) settings of
        Inl e \<Rightarrow> Inl e
      | Inr settings1 \<Rightarrow>
          (case gdbBinaryToolChainMapFromSettings pf settings1 of
             Inl e \<Rightarrow> Inl e
           | Inr fromSettings \<Rightarrow>
               if m_gdbBinaryToolChainMap st = fromSettings then Inr settings1
               else
                 (case buildSettingsList [] [] (m_gdbBinaryToolChainMap st) of
                    Inl e \<Rightarrow> Inl e
                  | Inr settingsList \<Rightarrow>
                      Inr (writeSettingsList (settingsList @ [[]])
                             (QSettings_removeGroup gdbBinariesSettingsGroupC settings1)))))"

text \<open>Persisting the map of a settings object and decoding the store that results.\<close>

definition writeThenRead ::
  "platform \<Rightarrow> ('v SavedAction \<Rightarrow> QSettings \<Rightarrow> QSettings) \<Rightarrow> (ptr \<rightharpoonup> 'v SavedAction) \<Rightarrow>
     DebuggerSettings \<Rightarrow> QSettings \<Rightarrow> error + GdbBinaryToolChainMap"
where
  "writeThenRead pf saWrite heap st settings =
     (case writeSettings pf saWrite heap st settings of
        Inl e \<Rightarrow> Inl e
      | Inr settings' \<Rightarrow> gdbBinaryToolChainMapFromSettings pf settings')"

subsection \<open>The loop of the reader, one entry at a time\<close>

text \<open>
  Names for the parts of one iteration of \<open>readGdbBinaries\<close>: the value read at index
  \<open>i\<close>, the test of its two \<^verbatim>\<open>break\<close>s, and the map after the inner \<^verbatim>\<open>foreach\<close>.
\<close>

definition entryValue :: "QSettings \<Rightarrow> int \<Rightarrow> string" where
  "entryValue settings i = QSettings_value settings (keyRoot @ QString_number i)"

definition isLastEntry :: "string \<Rightarrow> bool" where
  "isLastEntry value = (value = [] \<or> length (QString_split (CHR '','') value) < 2)"

definition readEntry :: "GdbBinaryToolChainMap \<Rightarrow> string \<Rightarrow> GdbBinaryToolChainMap" where
  "readEntry gdbBinaryToolChainMap value =
     foldl (addToolChain (hd (QString_split (CHR '','') value))) gdbBinaryToolChainMap
       (tl (QString_split (CHR '','') value))"

text \<open>
  The list that \<open>buildSettingsList\<close> produces, written as a recursion from the front:
  \<open>cur\<close> is the entry under construction for the binary \<open>k\<close>.
\<close>

definition toolChainSuffix :: "cint list \<Rightarrow> string" where
  "toolChainSuffix vs = concat (map (\<lambda>v. CHR '','' # QString_number (sint v)) vs)"

fun flatten :: "string \<Rightarrow> string \<Rightarrow> GdbBinaryToolChainMap \<Rightarrow> string list" where
  "flatten k cur [] = [cur]"
| "flatten k cur ((k', v) # rest) =
     (if k' = k then flatten k (cur @ CHR '','' # QString_number (sint v)) rest
      else cur # flatten k' (k' @ CHR '','' # QString_number (sint v)) rest)"

text \<open>Reading the written entries back inserts the pairs of the map one by one.\<close>

definition addPair :: "GdbBinaryToolChainMap \<Rightarrow> string \<times> cint \<Rightarrow> GdbBinaryToolChainMap" where
  "addPair m p = addToolChain (fst p) m (QString_number (sint (snd p)))"

section \<open>Properties of the registry\<close>

lemma map_of_QHash_assign:
  "map_of (QHash_assign k v h) = (map_of h)(k \<mapsto> v)"
  by (induction h) (auto simp: fun_eq_iff)

lemma QHash_value_assign:
  "QHash_value (QHash_assign k v h) k' d = (if k' = k then v else QHash_value h k' d)"
  by (simp add: QHash_value_def map_of_QHash_assign)

text \<open>A new code is bound to the new action, and no other code changes its action.\<close>

lemma insertItem_new_code:
  assumes "\<not> QHash_contains (m_items st) code" and "deref heap p = Inr a"
  shows "\<exists>st'. insertItem heap code p st = Inr st'
           \<and> item st' code = p
           \<and> (\<forall>c. c \<noteq> code \<longrightarrow> item st' c = item st c)"
  using assms by (simp add: insertItem_def item_def QHash_value_assign)

text \<open>
  Claim C5. For a code registered in the settings object with a live action,
  \<open>theDebuggerBoolSetting\<close> returns the boolean conversion of that action's value and
  \<open>theDebuggerStringSetting\<close> its string conversion; neither fails.
\<close>

theorem theDebuggerSetting_registered:
  assumes "map_of (m_items inst) code = Some p"
    and "p \<noteq> 0"
    and "heap p = Some a"
  shows "theDebuggerAction inst code = p
       \<and> theDebuggerBoolSetting toBool heap inst code = Inr (toBool (m_value a))
       \<and> theDebuggerStringSetting toString heap inst code = Inr (toString (m_value a))"
proof -
  have it: "item inst code = p"
    using assms(1,2) by (simp add: item_def QHash_value_def)
  have d: "deref heap p = Inr a"
    using assms(2,3) by (simp add: deref_def)
  show ?thesis
    by (simp add: theDebuggerAction_def theDebuggerBoolSetting_def
        theDebuggerStringSetting_def it d)
qed

theorem theDebuggerSetting_registered_witness:
  "(let heap = [7 \<mapsto> \<lparr>m_value = True, m_defaultValue = False, m_settingsKey = ''VerboseLog''\<rparr>];
        inst = \<lparr>m_items = [(3, 7)], m_gdbBinaryToolChainMap = []\<rparr>;
        toString = (\<lambda>b. if b then ''true'' else ''false'')
    in insertItem heap 3 7 \<lparr>m_items = [], m_gdbBinaryToolChainMap = []\<rparr> = Inr inst
     \<and> map_of (m_items inst) 3 = Some 7
     \<and> theDebuggerAction inst 3 = 7
     \<and> theDebuggerBoolSetting id heap inst 3 = Inr True
     \<and> theDebuggerStringSetting toString heap inst 3 = Inr ''true'')"
  using theDebuggerSetting_registered
    [of "\<lparr>m_items = [(3, 7)], m_gdbBinaryToolChainMap = []\<rparr>" 3 7
        "[7 \<mapsto> \<lparr>m_value = True, m_defaultValue = False, m_settingsKey = ''VerboseLog''\<rparr>]"
        "\<lparr>m_value = True, m_defaultValue = False, m_settingsKey = ''VerboseLog''\<rparr>"
        id "\<lambda>b. if b then ''true'' else ''false''"]
  by (simp add: insertItem_def QHash_contains_def deref_def)

text \<open>
  Claim C6. \<open>insertItem\<close> called with a code that is already registered returns the
  settings object as it was, whatever live action the new pointer refers to: the old
  action stays bound to the code and the new pointer is bound to no code. (The diagnostic
  of the failed assertion calls \<^verbatim>\<open>item->toString()\<close>, so a null or dangling \<open>item\<close> is
  an error and yields no settings object at all.)
\<close>

theorem insertItem_registered_unchanged:
  assumes "QHash_contains (m_items st) code"
  shows "insertItem heap code item' st =
           (case deref heap item' of Inl e \<Rightarrow> Inl e | Inr a \<Rightarrow> Inr st)"
  using assms by (simp add: insertItem_def)

theorem insertItem_registered_unchanged_witness:
  "(let heap = [7 \<mapsto> \<lparr>m_value = True, m_defaultValue = False, m_settingsKey = ''VerboseLog''\<rparr>,
                9 \<mapsto> \<lparr>m_value = False, m_defaultValue = False, m_settingsKey = ''LogTimeStamps''\<rparr>];
        st = \<lparr>m_items = [(3, 7)], m_gdbBinaryToolChainMap = []\<rparr>
    in QHash_contains (m_items st) 3
     \<and> insertItem heap 3 9 st = Inr st
     \<and> item st 3 = 7)"
  using insertItem_registered_unchanged
    [of "\<lparr>m_items = [(3, 7)], m_gdbBinaryToolChainMap = []\<rparr>" 3
        "[7 \<mapsto> \<lparr>m_value = True, m_defaultValue = False, m_settingsKey = ''VerboseLog''\<rparr>,
          9 \<mapsto> \<lparr>m_value = False, m_defaultValue = False, m_settingsKey = ''LogTimeStamps''\<rparr>]"
        9]
  by (simp add: QHash_contains_def deref_def item_def QHash_value_def)

text \<open>
  Claim C7. \<open>item\<close> has a result for every code: for a code with no action registered it
  is the null pointer \<open>0\<close>. It is a function of the settings object alone (a \<^verbatim>\<open>const\<close>
  member that reads the hash with \<^verbatim>\<open>value(code, 0)\<close>), so no call changes the registry.
\<close>

theorem item_unregistered_null:
  assumes "\<not> QHash_contains (m_items st) code"
  shows "item st code = 0"
  using assms by (simp add: item_def QHash_contains_def QHash_value_def)

theorem item_unregistered_null_witness:
  "\<not> QHash_contains (m_items \<lparr>m_items = [(3, 7)], m_gdbBinaryToolChainMap = []\<rparr>) 4
   \<and> item \<lparr>m_items = [(3, 7)], m_gdbBinaryToolChainMap = []\<rparr> 4 = 0"
  using item_unregistered_null [of "\<lparr>m_items = [(3, 7)], m_gdbBinaryToolChainMap = []\<rparr>" 4]
  by (simp add: QHash_contains_def)

section \<open>Numbers and strings\<close>

text \<open>
  Printing a number and reading it back gives the number: \<open>QString_toInt\<close> undoes
  \<open>QString_number\<close> on every \<^verbatim>\<open>int\<close>, and a printed number holds no comma and no space.
\<close>

lemma of_char_digit_char:
  "0 \<le> d \<Longrightarrow> d < 10 \<Longrightarrow> (of_char (digit_char d) :: int) = 48 + d"
  by (simp add: digit_char_def of_char_of)

lemma digit_value_digit_char:
  "0 \<le> d \<Longrightarrow> d < 10 \<Longrightarrow> digit_value (digit_char d) = d"
  by (simp add: digit_value_def of_char_digit_char)

lemma char_le_iff_int: "(c \<le> d) = ((of_char c :: int) \<le> of_char d)"
proof -
  have "(of_char c :: int) = int (of_char c)" "(of_char d :: int) = int (of_char d)"
    by (simp_all only: of_nat_of_char)
  then show ?thesis by (simp add: less_eq_char_def)
qed

lemma isDigit_iff: "isDigit c = (48 \<le> (of_char c :: int) \<and> (of_char c :: int) \<le> 57)"
  by (simp add: isDigit_def char_le_iff_int)

lemma isDigit_digit_char: "0 \<le> d \<Longrightarrow> d < 10 \<Longrightarrow> isDigit (digit_char d)"
  by (simp add: isDigit_iff of_char_digit_char)

lemma isDigit_not_special:
  "isDigit c \<Longrightarrow> c \<noteq> CHR '','' \<and> c \<noteq> CHR ''-'' \<and> c \<noteq> CHR ''+'' \<and> \<not> isSpace c"
  by (auto simp: isDigit_iff isSpace_def)

lemma decimal_digits: "0 \<le> n \<Longrightarrow> decimal n \<noteq> [] \<and> list_all isDigit (decimal n)"
proof (induction n rule: decimal.induct)
  case (1 n)
  show ?case
  proof (cases "n < 10")
    case True
    with "1.prems" show ?thesis
      by (subst (1 2) decimal.simps) (simp add: isDigit_digit_char)
  next
    case False
    then have "0 \<le> n div 10" by simp
    with "1.IH" False have "list_all isDigit (decimal (n div 10))" by simp
    with False show ?thesis
      by (subst (1 2) decimal.simps) (simp add: isDigit_digit_char)
  qed
qed

lemma decimal_value:
  "0 \<le> n \<Longrightarrow> foldl (\<lambda>a c. 10 * a + digit_value c) 0 (decimal n) = n"
proof (induction n rule: decimal.induct)
  case (1 n)
  show ?case
  proof (cases "n < 10")
    case True
    with "1.prems" show ?thesis
      by (subst decimal.simps) (simp add: digit_value_digit_char)
  next
    case False
    then have "0 \<le> n div 10" by simp
    with "1.IH" False
    have "foldl (\<lambda>a c. 10 * a + digit_value c) 0 (decimal (n div 10)) = n div 10" by simp
    with False show ?thesis
      by (subst decimal.simps) (simp add: digit_value_digit_char)
  qed
qed

lemma parse_digits_decimal: "0 \<le> n \<Longrightarrow> parse_digits (decimal n) = Some n"
  by (simp add: parse_digits_def decimal_digits decimal_value)

lemma decimal_hd_digit: "0 \<le> n \<Longrightarrow> isDigit (hd (decimal n))"
  using decimal_digits [of n] by (cases "decimal n") auto

lemma parse_int_number: "parse_int (QString_number n) = Some n"
proof (cases "n < 0")
  case True
  then show ?thesis
    by (simp add: QString_number_def parse_int_def parse_digits_decimal)
next
  case False
  then have n: "0 \<le> n" by simp
  obtain c r where cr: "decimal n = c # r"
    using decimal_digits [OF n] by (cases "decimal n") auto
  with decimal_hd_digit [OF n] have "isDigit c" by simp
  then have "c \<noteq> CHR ''-''" "c \<noteq> CHR ''+''"
    using isDigit_not_special by blast+
  then show ?thesis
    using False parse_digits_decimal [OF n]
    by (simp add: QString_number_def parse_int_def cr)
qed

lemma QString_number_inj: "QString_number a = QString_number b \<Longrightarrow> a = b"
  by (metis parse_int_number option.inject)

lemma QString_number_chars:
  "c \<in> set (QString_number n) \<Longrightarrow> c = CHR ''-'' \<or> isDigit c"
proof -
  assume c: "c \<in> set (QString_number n)"
  have d: "isDigit c" if "0 \<le> m" "c \<in> set (decimal m)" for m
    using decimal_digits [OF that(1)] that(2) by (simp add: list_all_iff)
  show ?thesis
  proof (cases "n < 0")
    case True
    with c have "c = CHR ''-'' \<or> c \<in> set (decimal (- n))"
      by (simp add: QString_number_def)
    with True d [of "- n"] show ?thesis by auto
  next
    case False
    with c have "c \<in> set (decimal n)" by (simp add: QString_number_def)
    with False d [of n] show ?thesis by auto
  qed
qed

lemma QString_number_no_comma: "CHR '','' \<notin> set (QString_number n)"
  using QString_number_chars [of "CHR '',''" n] isDigit_not_special [of "CHR '',''"] by auto

lemma QString_number_no_space: "c \<in> set (QString_number n) \<Longrightarrow> \<not> isSpace c"
  using QString_number_chars [of c n] isDigit_not_special [of c]
  by (auto simp: isSpace_def)

lemma QString_number_nonempty: "QString_number n \<noteq> []"
  using decimal_digits [of n] decimal_digits [of "- n"]
  by (auto simp: QString_number_def)

lemma trimmed_no_space: "\<forall>c\<in>set s. \<not> isSpace c \<Longrightarrow> trimmed s = s"
proof -
  assume a: "\<forall>c\<in>set s. \<not> isSpace c"
  then have "dropWhile isSpace s = s" by (cases s) auto
  moreover from a have "dropWhile isSpace (rev s) = rev s" by (cases "rev s") auto
  ultimately show ?thesis by (simp add: trimmed_def)
qed

lemma QString_toInt_number: "QString_toInt (QString_number (sint (w :: cint))) = w"
proof -
  have t: "trimmed (QString_number (sint w)) = QString_number (sint w)"
    by (rule trimmed_no_space) (simp add: QString_number_no_space)
  have lo: "- 2147483648 \<le> sint w" using sint_ge [of w] by simp
  have hi: "sint w \<le> 2147483647" using sint_lt [of w] by simp
  show ?thesis
    by (simp add: QString_toInt_def t parse_int_number lo hi)
qed

section \<open>Splitting an entry, and the multi-map\<close>

text \<open>
  An entry \<^verbatim>\<open>binary,n1,...,nk\<close> whose binary has no comma splits into the binary and the
  \<open>k\<close> numerals. Inserting a pair adds it to the pairs of the map and keeps the keys
  ascending.
\<close>

lemma QString_split_nonempty: "QString_split sep s \<noteq> []"
  by (induction s) auto

lemma QString_split_no_sep: "sep \<notin> set a \<Longrightarrow> QString_split sep a = [a]"
  by (induction a) auto

lemma QString_split_append:
  "sep \<notin> set a \<Longrightarrow> QString_split sep (a @ sep # r) = a # QString_split sep r"
  by (induction a) auto

lemma split_number_suffix:
  "QString_split (CHR '','') (a @ toolChainSuffix vs) =
     (if CHR '','' \<in> set a then QString_split (CHR '','') (a @ toolChainSuffix vs)
      else a # map (\<lambda>v. QString_number (sint v)) vs)"
proof (induction vs arbitrary: a)
  case Nil
  then show ?case by (simp add: toolChainSuffix_def QString_split_no_sep)
next
  case (Cons v vs)
  show ?case
  proof (cases "CHR '','' \<in> set a")
    case True
    then show ?thesis by simp
  next
    case False
    have "QString_split (CHR '','') (a @ toolChainSuffix (v # vs)) =
          a # QString_split (CHR '','') (QString_number (sint v) @ toolChainSuffix vs)"
      using False by (simp add: toolChainSuffix_def QString_split_append)
    also have "\<dots> = a # QString_number (sint v) # map (\<lambda>v. QString_number (sint v)) vs"
      using Cons.IH [of "QString_number (sint v)"] by (simp add: QString_number_no_comma)
    finally show ?thesis using False by simp
  qed
qed

lemma split_entry:
  "CHR '','' \<notin> set k \<Longrightarrow>
   QString_split (CHR '','') (k @ toolChainSuffix vs) = k # map (\<lambda>v. QString_number (sint v)) vs"
  using split_number_suffix [of k vs] by simp

lemma toolChainSuffix_snoc:
  "toolChainSuffix (vs @ [v]) = toolChainSuffix vs @ CHR '','' # QString_number (sint v)"
  by (simp add: toolChainSuffix_def)

lemma toolChainSuffix_nonempty: "vs \<noteq> [] \<Longrightarrow> toolChainSuffix vs \<noteq> []"
  by (cases vs) (simp_all add: toolChainSuffix_def)

lemma entry_not_last:
  "CHR '','' \<notin> set k \<Longrightarrow> vs \<noteq> [] \<Longrightarrow> \<not> isLastEntry (k @ toolChainSuffix vs)"
  by (cases vs) (simp_all add: isLastEntry_def split_entry toolChainSuffix_nonempty)

lemma readEntry_entry:
  "CHR '','' \<notin> set k \<Longrightarrow>
   readEntry m (k @ toolChainSuffix vs) = foldl addPair m (map (Pair k) vs)"
  by (simp add: readEntry_def split_entry foldl_map addPair_def)

lemma mset_QMultiMap_insert: "mset (QMultiMap_insert k v m) = add_mset (k, v) (mset m)"
  by (induction m) auto

lemma QMultiMap_insert_nonempty: "QMultiMap_insert k v m \<noteq> []"
  by (cases m) (auto split: if_splits)

lemma set_QMultiMap_insert: "set (QMultiMap_insert k v m) = insert (k, v) (set m)"
  by (induction m) (auto split: if_splits)

lemma sorted_QMultiMap_insert:
  "sorted (map fst m) \<Longrightarrow> sorted (map fst (QMultiMap_insert k v m))"
proof (induction m)
  case Nil
  then show ?case by simp
next
  case (Cons p m)
  obtain k' v' where p: "p = (k', v')" by (cases p)
  from Cons.prems have tl: "sorted (map fst m)" and hd: "\<forall>x\<in>set m. k' \<le> fst x"
    by (simp_all add: p)
  show ?case
  proof (cases "k' < k")
    case True
    then have "k' \<le> k" by (rule less_imp_le)
    with True hd Cons.IH [OF tl] show ?thesis
      by (simp add: p set_QMultiMap_insert)
  next
    case False
    then have kk: "k \<le> k'" by simp
    then have "\<forall>x\<in>set m. k \<le> fst x"
      using hd order_trans by blast
    with False kk Cons.prems show ?thesis
      by (simp add: p)
  qed
qed

lemma QMultiMap_key_absent: "v \<notin> snd ` set m \<Longrightarrow> QMultiMap_key m v = []"
  by (induction m) auto

lemma addPair_fresh: "snd p \<notin> snd ` set m \<Longrightarrow> addPair m p = QMultiMap_insert (fst p) (snd p) m"
  by (simp add: addPair_def addToolChain_def QString_toInt_number QMultiMap_key_absent)

lemma sorted_addToolChain:
  "sorted (map fst m) \<Longrightarrow> sorted (map fst (addToolChain k m t))"
  by (simp add: addToolChain_def Let_def sorted_QMultiMap_insert)

lemma sorted_readEntry: "sorted (map fst m) \<Longrightarrow> sorted (map fst (readEntry m value))"
proof -
  have "sorted (map fst m) \<Longrightarrow> sorted (map fst (foldl (addToolChain k) m ts))" for k ts
    by (induction ts arbitrary: m) (simp_all add: sorted_addToolChain)
  then show "sorted (map fst m) \<Longrightarrow> sorted (map fst (readEntry m value))"
    by (simp add: readEntry_def)
qed

lemma foldl_addPair_distinct:
  "distinct (map snd ps) \<Longrightarrow> snd ` set ps \<inter> snd ` set m = {} \<Longrightarrow>
   mset (foldl addPair m ps) = mset m + mset ps"
proof (induction ps arbitrary: m)
  case Nil
  then show ?case by simp
next
  case (Cons p ps)
  from Cons.prems have fresh: "snd p \<notin> snd ` set m" by auto
  then have step: "addPair m p = QMultiMap_insert (fst p) (snd p) m"
    by (rule addPair_fresh)
  have "snd ` set ps \<inter> snd ` set (addPair m p) = {}"
    using Cons.prems by (auto simp: step set_QMultiMap_insert)
  with Cons.IH [of "addPair m p"] Cons.prems
  have "mset (foldl addPair (addPair m p) ps) = mset (addPair m p) + mset ps" by simp
  then show ?case by (simp add: step mset_QMultiMap_insert)
qed

section \<open>The loop of the reader\<close>

text \<open>
  One unfolding of the loop in terms of \<open>isLastEntry\<close> and \<open>readEntry\<close>, and the loop
  run over \<open>n\<close> entries that do not end the list followed by one that does.
\<close>

lemma readGdbBinaries_step:
  "readGdbBinaries settings i m =
     (if isLastEntry (entryValue settings i) then Inr m
      else if INT_MAX \<le> i then Inl SignedOverflow
      else readGdbBinaries settings (i + 1) (readEntry m (entryValue settings i)))"
  by (subst readGdbBinaries.simps)
     (simp add: Let_def isLastEntry_def entryValue_def readEntry_def)

lemma readGdbBinaries_run:
  "\<forall>j<n. \<not> isLastEntry (entryValue settings (i + int j)) \<Longrightarrow>
   isLastEntry (entryValue settings (i + int n)) \<Longrightarrow>
   i + int n \<le> INT_MAX \<Longrightarrow>
   readGdbBinaries settings i m =
     Inr (foldl readEntry m (map (\<lambda>j. entryValue settings (i + int j)) [0..<n]))"
proof (induction n arbitrary: i m)
  case 0
  then show ?case by (subst readGdbBinaries_step) simp
next
  case (Suc n)
  have first: "\<not> isLastEntry (entryValue settings i)"
    using Suc.prems(1) [rule_format, of 0] by simp
  from Suc.prems(3) have small: "\<not> INT_MAX \<le> i" by simp
  have rest: "\<forall>j<n. \<not> isLastEntry (entryValue settings (i + 1 + int j))"
  proof (intro allI impI)
    fix j assume "j < n"
    then have "Suc j < Suc n" by simp
    with Suc.prems(1) have "\<not> isLastEntry (entryValue settings (i + int (Suc j)))" by blast
    then show "\<not> isLastEntry (entryValue settings (i + 1 + int j))"
      by (simp add: add.assoc)
  qed
  have last: "isLastEntry (entryValue settings (i + 1 + int n))"
    using Suc.prems(2) by (simp add: add.assoc)
  have bound: "i + 1 + int n \<le> INT_MAX"
    using Suc.prems(3) by simp
  have ix: "map (\<lambda>j. entryValue settings (i + int j)) [0..<Suc n] =
            entryValue settings i # map (\<lambda>j. entryValue settings (i + 1 + int j)) [0..<n]"
  proof -
    have "[0..<Suc n] = 0 # map Suc [0..<n]"
      by (simp add: upt_conv_Cons map_Suc_upt del: upt_Suc)
    then show ?thesis by (simp add: o_def add.assoc del: upt_Suc)
  qed
  show ?case
    using Suc.IH [OF rest last bound, of "readEntry m (entryValue settings i)"] first small
    by (subst readGdbBinaries_step) (simp only: ix if_False foldl_Cons)
qed

lemma first_last_entry:
  assumes "isLastEntry (entryValue settings (i + int d))"
  shows "\<exists>n\<le>d. isLastEntry (entryValue settings (i + int n))
           \<and> (\<forall>j<n. \<not> isLastEntry (entryValue settings (i + int j)))"
proof -
  define P where "P n = isLastEntry (entryValue settings (i + int n))" for n
  have "P d" using assms by (simp add: P_def)
  then have "P (LEAST n. P n)" and "(LEAST n. P n) \<le> d"
    by (rule LeastI, rule Least_le)
  moreover have "\<forall>j<LEAST n. P n. \<not> P j"
    using not_less_Least by blast
  ultimately show ?thesis unfolding P_def by blast
qed

lemma sorted_readGdbBinaries:
  "readGdbBinaries settings i m = Inr r \<Longrightarrow> sorted (map fst m) \<Longrightarrow> sorted (map fst r)"
proof (induction settings i m rule: readGdbBinaries.induct)
  case (1 settings i m)
  show ?case
  proof (cases "isLastEntry (entryValue settings i)")
    case True
    with "1.prems" show ?thesis
      by (subst (asm) readGdbBinaries_step) simp
  next
    case False
    have "readGdbBinaries settings i m =
            (if INT_MAX \<le> i then Inl SignedOverflow
             else readGdbBinaries settings (i + 1) (readEntry m (entryValue settings i)))"
      using False by (subst readGdbBinaries_step) simp
    with "1.prems"(1) have small: "\<not> INT_MAX \<le> i"
      and rec: "readGdbBinaries settings (i + 1) (readEntry m (entryValue settings i)) = Inr r"
      by (simp_all split: if_splits)
    have s: "sorted (map fst (readEntry m (entryValue settings i)))"
      using "1.prems"(2) by (rule sorted_readEntry)
    from False have a: "entryValue settings i \<noteq> []"
      and b: "\<not> length (QString_split (CHR '','') (entryValue settings i)) < 2"
      by (simp_all add: isLastEntry_def)
    show ?thesis
      using "1.IH" [OF _ a _ b _ _ small] rec s
      by (simp add: entryValue_def readEntry_def)
  qed
qed

lemma sorted_gdbBinaryToolChainMapFromSettings:
  "gdbBinaryToolChainMapFromSettings pf settings = Inr r \<Longrightarrow> sorted (map fst r)"
proof -
  assume a: "gdbBinaryToolChainMapFromSettings pf settings = Inr r"
  then obtain m where m: "readGdbBinaries settings 1 [] = Inr m"
    by (auto simp: gdbBinaryToolChainMapFromSettings_def split: sum.splits)
  have sm: "sorted (map fst m)"
    using sorted_readGdbBinaries [OF m] by simp
  show ?thesis
  proof (cases "Q_OS_UNIX pf \<and> m = []")
    case True
    with a m have "r = QMultiMap_insert ''gdb'' (UNKNOWN pf)
                  (QMultiMap_insert ''gdb'' (OTHER pf)
                    (QMultiMap_insert ''gdb'' (LINUX_ICC pf)
                      (QMultiMap_insert ''gdb'' (GCC pf) [])))"
      by (simp add: gdbBinaryToolChainMapFromSettings_def)
    then show ?thesis by (simp only: sorted_QMultiMap_insert list.map sorted_simps)
  next
    case False
    with a m have "r = m"
      by (auto simp: gdbBinaryToolChainMapFromSettings_def)
    with sm show ?thesis by simp
  qed
qed

section \<open>The list of the writer\<close>

text \<open>
  Once its list is not empty, \<open>buildSettingsList\<close> cannot fail and produces
  \<open>flatten\<close>; reading the entries of \<open>flatten\<close> adds the pairs of the map in order; and
  the store written by \<open>writeSettingsList\<close> holds entry \<open>j\<close> of the list at index \<open>j + 1\<close>.
\<close>

lemma buildSettingsList_flatten:
  "buildSettingsList k (sl @ [cur]) m = Inr (sl @ flatten k cur m)"
proof (induction m arbitrary: k sl cur)
  case Nil
  then show ?case by simp
next
  case (Cons p m)
  obtain k' v where p: "p = (k', v)" by (cases p)
  show ?case
  proof (cases "k' = k")
    case True
    then show ?thesis
      using Cons.IH [of k sl "cur @ CHR '','' # QString_number (sint v)"]
      by (simp add: p)
  next
    case False
    then show ?thesis
      using Cons.IH [of k' "sl @ [cur]" "k' @ CHR '','' # QString_number (sint v)"]
      by (simp add: p butlast_append)
  qed
qed

lemma buildSettingsList_start:
  assumes "k \<noteq> []"
  shows "buildSettingsList [] [] ((k, v) # m) =
           Inr (flatten k (k @ toolChainSuffix [v]) m)"
  using assms buildSettingsList_flatten [of k "[]" "k @ CHR '','' # QString_number (sint v)" m]
  by (simp add: toolChainSuffix_def)

lemma flatten_read:
  "CHR '','' \<notin> set k \<Longrightarrow> \<forall>p\<in>set m. CHR '','' \<notin> set (fst p) \<Longrightarrow> vs \<noteq> [] \<Longrightarrow>
   (\<forall>e\<in>set (flatten k (k @ toolChainSuffix vs) m). \<not> isLastEntry e)
   \<and> foldl readEntry acc (flatten k (k @ toolChainSuffix vs) m) =
       foldl addPair acc (map (Pair k) vs @ m)"
proof (induction m arbitrary: k vs acc)
  case Nil
  then show ?case by (simp add: entry_not_last readEntry_entry)
next
  case (Cons p m)
  obtain k' v where p: "p = (k', v)" by (cases p)
  from Cons.prems have k': "CHR '','' \<notin> set k'" and m: "\<forall>p\<in>set m. CHR '','' \<notin> set (fst p)"
    by (simp_all add: p)
  show ?case
  proof (cases "k' = k")
    case True
    have "flatten k (k @ toolChainSuffix vs) (p # m) =
          flatten k (k @ toolChainSuffix (vs @ [v])) m"
      using True by (simp add: p toolChainSuffix_snoc)
    then show ?thesis
      using Cons.IH [OF Cons.prems(1) m, of "vs @ [v]" acc] True
      by (simp add: p)
  next
    case False
    have fl: "flatten k (k @ toolChainSuffix vs) (p # m) =
          (k @ toolChainSuffix vs) # flatten k' (k' @ toolChainSuffix [v]) m"
      using False by (simp add: p toolChainSuffix_def)
    have ih: "(\<forall>e\<in>set (flatten k' (k' @ toolChainSuffix [v]) m). \<not> isLastEntry e)
      \<and> foldl readEntry (foldl addPair acc (map (Pair k) vs))
            (flatten k' (k' @ toolChainSuffix [v]) m) =
          foldl addPair (foldl addPair acc (map (Pair k) vs)) (map (Pair k') [v] @ m)"
      by (rule Cons.IH [OF k' m]) simp
    show ?thesis
      unfolding fl using ih Cons.prems(1,3)
      by (simp add: entry_not_last readEntry_entry p del: flatten.simps)
  qed
qed

lemma length_flatten: "length (flatten k cur m) \<le> Suc (length m)"
  by (induction m arbitrary: k cur) (auto simp: le_SucI)

lemma writeSettingsList_lookup:
  "j < length sl \<Longrightarrow> entryValue (writeSettingsList sl settings) (1 + int j) = sl ! j"
proof -
  define f where "f = (\<lambda>s i. QSettings_setValue gdbBinariesSettingsGroupC
                     (debugModeGdbBinaryKeyC @ QString_number (int i + 1)) (sl ! i) s)"
  have step: "f s i = s(keyRoot @ QString_number (1 + int i) \<mapsto> sl ! i)" for s i
    by (simp add: f_def QSettings_setValue_def keyRoot_def add.commute)
  have "j < n \<Longrightarrow> foldl f settings [0..<n] (keyRoot @ QString_number (1 + int j)) = Some (sl ! j)"
    for n
  proof (induction n)
    case 0
    then show ?case by simp
  next
    case (Suc n)
    show ?case
    proof (cases "j = n")
      case True
      then show ?thesis by (simp add: step)
    next
      case False
      with Suc.prems have "j < n" by simp
      moreover have "QString_number (1 + int j) \<noteq> QString_number (1 + int n)"
        using False QString_number_inj by fastforce
      ultimately show ?thesis using Suc.IH by (simp add: step)
    qed
  qed
  moreover assume "j < length sl"
  ultimately show ?thesis
    by (simp add: writeSettingsList_def entryValue_def QSettings_value_def f_def)
qed

lemma same_keys_unique:
  "map fst r = map fst m \<Longrightarrow> distinct (map fst m) \<Longrightarrow> mset r = mset m \<Longrightarrow> r = m"
proof (induction r arbitrary: m)
  case Nil
  then show ?case by simp
next
  case (Cons x r)
  then obtain y m' where m: "m = y # m'" by (cases m) auto
  from Cons.prems(1) have fx: "fst x = fst y" and keys: "map fst r = map fst m'"
    by (simp_all add: m)
  from Cons.prems(2) have fresh: "fst y \<notin> fst ` set m'" and d: "distinct (map fst m')"
    by (simp_all add: m)
  have "x \<in> set (y # m')"
    using Cons.prems(3) by (metis m list.set_intros(1) mset_eq_setD)
  moreover have "x \<notin> set m'"
    using fx fresh by (metis imageI)
  ultimately have xy: "x = y" by simp
  with Cons.prems(3) have "mset r = mset m'" by (simp add: m)
  with Cons.IH [OF keys d] xy show ?case by (simp add: m)
qed

lemma sorted_keys_unique:
  assumes "mset r = mset m" and "sorted (map fst r)" and "sorted_wrt (<) (map fst m)"
  shows "r = (m :: GdbBinaryToolChainMap)"
proof -
  from assms(3) have sm: "sorted (map fst m)" and dm: "distinct (map fst m)"
    by (simp_all add: strict_sorted_iff)
  have "mset (map fst r) = mset (map fst m)"
    using assms(1) by (metis mset_map)
  then have "sort (map fst m) = map fst r"
    using assms(2) by (simp add: properties_for_sort)
  with sm have "map fst r = map fst m"
    by (simp add: sorted_sort_id)
  then show ?thesis using dm assms(1) by (rule same_keys_unique)
qed

lemma writeItems_frame:
  "writeItems saWrite heap ps settings = Inr settings1 \<Longrightarrow>
   \<forall>a s. saWrite a s key = s key \<Longrightarrow> settings1 key = settings key"
proof (induction ps arbitrary: settings)
  case Nil
  then show ?case by simp
next
  case (Cons p ps)
  then show ?case
    by (cases "deref heap p") (auto split: sum.splits)
qed

lemma read_back:
  assumes k: "k \<noteq> []" "CHR '','' \<notin> set k"
    and keys: "\<forall>p\<in>set m. CHR '','' \<notin> set (fst p)"
    and size: "int (length m) + 1 < INT_MAX"
    and sl: "sl = flatten k (k @ toolChainSuffix [v]) m"
  shows "readGdbBinaries (writeSettingsList (sl @ [[]]) settings) 1 [] =
           Inr (foldl addPair [] ((k, v) # m))"
proof -
  let ?s = "writeSettingsList (sl @ [[]]) settings"
  let ?n = "length sl"
  have fr: "(\<forall>e\<in>set sl. \<not> isLastEntry e)
      \<and> foldl readEntry [] sl = foldl addPair [] (map (Pair k) [v] @ m)"
    unfolding sl by (rule flatten_read [OF k(2) keys]) simp
  have ent: "entryValue ?s (1 + int j) = (sl @ [[]]) ! j" if "j \<le> ?n" for j
    using that by (intro writeSettingsList_lookup) simp
  have notlast: "\<forall>j<?n. \<not> isLastEntry (entryValue ?s (1 + int j))"
  proof (intro allI impI)
    fix j assume j: "j < ?n"
    then have "entryValue ?s (1 + int j) = sl ! j"
      using ent [of j] by (simp add: nth_append)
    with fr j show "\<not> isLastEntry (entryValue ?s (1 + int j))" by simp
  qed
  have last: "isLastEntry (entryValue ?s (1 + int ?n))"
    using ent [of ?n] by (simp add: isLastEntry_def)
  have "?n \<le> Suc (length m)"
    unfolding sl by (rule length_flatten)
  with size have bound: "1 + int ?n \<le> INT_MAX" by simp
  have "map (\<lambda>j. entryValue ?s (1 + int j)) [0..<?n] = map (\<lambda>j. sl ! j) [0..<?n]"
    using ent by (simp add: nth_append)
  also have "\<dots> = sl" by (rule map_nth)
  finally have entries: "map (\<lambda>j. entryValue ?s (1 + int j)) [0..<?n] = sl" .
  show ?thesis
    using readGdbBinaries_run [OF notlast last bound, of "[]"] fr
    by (simp add: entries)
qed

section \<open>The reader stops at the first entry that ends the list\<close>

text \<open>
  Claim C4. \<open>gdbBinaryToolChainMapFromSettings\<close> returns a map for every settings store
  in which some index \<open>k\<close> from \<open>1\<close> on (an \<^verbatim>\<open>int\<close>, so at most \<open>INT_MAX\<close>) holds
  an empty value or a value with fewer than two comma-separated tokens under the key root
  \<^verbatim>\<open>GdbBinaries21/GdbBinary\<close>. The loop stops at the first such index \<open>1 + n\<close>: it has
  read exactly the entries before it, in order.
\<close>

theorem gdbBinaryToolChainMapFromSettings_terminates:
  assumes "1 \<le> k" and "k \<le> INT_MAX" and "isLastEntry (entryValue settings k)"
  shows "\<exists>n. 1 + int n \<le> k
           \<and> isLastEntry (entryValue settings (1 + int n))
           \<and> (\<forall>j<n. \<not> isLastEntry (entryValue settings (1 + int j)))
           \<and> readGdbBinaries settings 1 [] =
               Inr (foldl readEntry [] (map (\<lambda>j. entryValue settings (1 + int j)) [0..<n]))
           \<and> (\<exists>m. gdbBinaryToolChainMapFromSettings pf settings = Inr m)"
proof -
  from assms(1) have k: "k = 1 + int (nat (k - 1))" by simp
  with assms(3) have "isLastEntry (entryValue settings (1 + int (nat (k - 1))))" by simp
  from first_last_entry [OF this]
  obtain n where n: "n \<le> nat (k - 1)"
    and last: "isLastEntry (entryValue settings (1 + int n))"
    and first: "\<forall>j<n. \<not> isLastEntry (entryValue settings (1 + int j))"
    by blast
  from n assms(1) have le: "1 + int n \<le> k" by simp
  with assms(2) have bound: "1 + int n \<le> INT_MAX" by simp
  have run: "readGdbBinaries settings 1 [] =
      Inr (foldl readEntry [] (map (\<lambda>j. entryValue settings (1 + int j)) [0..<n]))"
    by (rule readGdbBinaries_run [OF first last bound])
  then have "\<exists>m. gdbBinaryToolChainMapFromSettings pf settings = Inr m"
    by (simp add: gdbBinaryToolChainMapFromSettings_def)
  with le last first run show ?thesis by blast
qed

theorem gdbBinaryToolChainMapFromSettings_terminates_witness:
  "1 \<le> (3::int) \<and> 3 \<le> INT_MAX
   \<and> isLastEntry (entryValue
        [''GdbBinaries21/GdbBinary1'' \<mapsto> ''gdb,1,2'', ''GdbBinaries21/GdbBinary2'' \<mapsto> ''agdb'',
         ''GdbBinaries21/GdbBinary4'' \<mapsto> ''cdb,7''] 3)
   \<and> (\<exists>m. gdbBinaryToolChainMapFromSettings
          \<lparr>Q_OS_UNIX = False, GCC = 0, LINUX_ICC = 1, OTHER = 200, UNKNOWN = 201\<rparr>
          [''GdbBinaries21/GdbBinary1'' \<mapsto> ''gdb,1,2'', ''GdbBinaries21/GdbBinary2'' \<mapsto> ''agdb'',
           ''GdbBinaries21/GdbBinary4'' \<mapsto> ''cdb,7''] = Inr m)
   \<and> gdbBinaryToolChainMapFromSettings
          \<lparr>Q_OS_UNIX = False, GCC = 0, LINUX_ICC = 1, OTHER = 200, UNKNOWN = 201\<rparr>
          [''GdbBinaries21/GdbBinary1'' \<mapsto> ''gdb,1,2'', ''GdbBinaries21/GdbBinary2'' \<mapsto> ''agdb'',
           ''GdbBinaries21/GdbBinary4'' \<mapsto> ''cdb,7''] = Inr [(''gdb'', 2), (''gdb'', 1)]"
proof -
  let ?s = "[''GdbBinaries21/GdbBinary1'' \<mapsto> ''gdb,1,2'', ''GdbBinaries21/GdbBinary2'' \<mapsto> ''agdb'',
             ''GdbBinaries21/GdbBinary4'' \<mapsto> ''cdb,7'']"
  let ?pf = "\<lparr>Q_OS_UNIX = False, GCC = 0, LINUX_ICC = 1, OTHER = 200, UNKNOWN = 201\<rparr>"
  have a: "1 \<le> (3::int)" by simp
  have b: "3 \<le> INT_MAX" by (simp add: INT_MAX_def)
  have c: "isLastEntry (entryValue ?s 3)" by code_simp
  have d: "gdbBinaryToolChainMapFromSettings ?pf ?s = Inr [(''gdb'', 2), (''gdb'', 1)]"
    by code_simp
  from gdbBinaryToolChainMapFromSettings_terminates [OF a b c, of ?pf]
  have e: "\<exists>m. gdbBinaryToolChainMapFromSettings ?pf ?s = Inr m" by blast
  from a b c d e show ?thesis by blast
qed

section \<open>Writing the settings\<close>

text \<open>
  Claim C8. When the map in memory equals the map decoded from the store (the store
  as it is at the comparison, after the registered actions have written their values),
  \<open>writeSettings\<close> returns that store: nothing of the group \<^verbatim>\<open>GdbBinaries21\<close> is removed
  or written. Where no action writes into that group, every key of the group has the
  value it had before the call.
\<close>

theorem writeSettings_keeps_gdb_group:
  assumes "writeItems saWrite heap (map snd (m_items st)) settings = Inr settings1"
    and "gdbBinaryToolChainMapFromSettings pf settings1 = Inr (m_gdbBinaryToolChainMap st)"
  shows "writeSettings pf saWrite heap st settings = Inr settings1
       \<and> ((\<forall>a s key. inGroup gdbBinariesSettingsGroupC key \<longrightarrow> saWrite a s key = s key) \<longrightarrow>
          (\<forall>key. inGroup gdbBinariesSettingsGroupC key \<longrightarrow> settings1 key = settings key))"
proof
  show "writeSettings pf saWrite heap st settings = Inr settings1"
    using assms by (simp add: writeSettings_def)
  show "(\<forall>a s key. inGroup gdbBinariesSettingsGroupC key \<longrightarrow> saWrite a s key = s key) \<longrightarrow>
          (\<forall>key. inGroup gdbBinariesSettingsGroupC key \<longrightarrow> settings1 key = settings key)"
    using writeItems_frame [OF assms(1)] by blast
qed

theorem writeSettings_keeps_gdb_group_witness:
  "(let pf = \<lparr>Q_OS_UNIX = True, GCC = 0, LINUX_ICC = 1, OTHER = 200, UNKNOWN = 201\<rparr>;
        heap = [7 \<mapsto> \<lparr>m_value = True, m_defaultValue = False, m_settingsKey = ''VerboseLog''\<rparr>];
        saWrite = (\<lambda>a s. s(''DebugMode/'' @ m_settingsKey a \<mapsto> (if m_value a then ''true'' else ''false'')));
        settings = [''GdbBinaries21/GdbBinary1'' \<mapsto> ''gdb,5,6'', ''GdbBinaries21/GdbBinary3'' \<mapsto> ''cdb,7''];
        settings1 = [''GdbBinaries21/GdbBinary1'' \<mapsto> ''gdb,5,6'', ''GdbBinaries21/GdbBinary3'' \<mapsto> ''cdb,7'',
                     ''DebugMode/VerboseLog'' \<mapsto> ''true''];
        st = \<lparr>m_items = [(3, 7)], m_gdbBinaryToolChainMap = [(''gdb'', 6), (''gdb'', 5)]\<rparr>
    in writeItems saWrite heap (map snd (m_items st)) settings = Inr settings1
     \<and> gdbBinaryToolChainMapFromSettings pf settings1 = Inr (m_gdbBinaryToolChainMap st)
     \<and> writeSettings pf saWrite heap st settings = Inr settings1
     \<and> settings1 ''GdbBinaries21/GdbBinary1'' = settings ''GdbBinaries21/GdbBinary1''
     \<and> settings1 ''GdbBinaries21/GdbBinary3'' = settings ''GdbBinaries21/GdbBinary3'')"
proof -
  let ?pf = "\<lparr>Q_OS_UNIX = True, GCC = 0, LINUX_ICC = 1, OTHER = 200, UNKNOWN = 201\<rparr>"
  let ?heap = "[7 \<mapsto> \<lparr>m_value = True, m_defaultValue = False, m_settingsKey = ''VerboseLog''\<rparr>]"
  let ?saWrite = "\<lambda>(a :: bool SavedAction) (s :: QSettings).
        s(''DebugMode/'' @ m_settingsKey a \<mapsto> (if m_value a then ''true'' else ''false''))"
  let ?settings = "[''GdbBinaries21/GdbBinary1'' \<mapsto> ''gdb,5,6'', ''GdbBinaries21/GdbBinary3'' \<mapsto> ''cdb,7'']"
  let ?settings1 = "[''GdbBinaries21/GdbBinary1'' \<mapsto> ''gdb,5,6'', ''GdbBinaries21/GdbBinary3'' \<mapsto> ''cdb,7'',
                     ''DebugMode/VerboseLog'' \<mapsto> ''true'']"
  let ?st = "\<lparr>m_items = [(3, 7)], m_gdbBinaryToolChainMap = [(''gdb'', 6), (''gdb'', 5)]\<rparr>"
  have items: "writeItems ?saWrite ?heap (map snd (m_items ?st)) ?settings = Inr ?settings1"
    by (simp add: deref_def)
  have dec: "gdbBinaryToolChainMapFromSettings ?pf ?settings1 = Inr (m_gdbBinaryToolChainMap ?st)"
    by code_simp
  have frame: "\<forall>a s key. inGroup gdbBinariesSettingsGroupC key \<longrightarrow> ?saWrite a s key = s key"
    by (auto simp: inGroup_def gdbBinariesSettingsGroupC_def)
  have g1: "inGroup gdbBinariesSettingsGroupC ''GdbBinaries21/GdbBinary1''"
    and g3: "inGroup gdbBinariesSettingsGroupC ''GdbBinaries21/GdbBinary3''"
    by (simp_all add: inGroup_def gdbBinariesSettingsGroupC_def)
  from writeSettings_keeps_gdb_group [OF items dec] frame g1 g3
  have "writeSettings ?pf ?saWrite ?heap ?st ?settings = Inr ?settings1
     \<and> ?settings1 ''GdbBinaries21/GdbBinary1'' = ?settings ''GdbBinaries21/GdbBinary1''
     \<and> ?settings1 ''GdbBinaries21/GdbBinary3'' = ?settings ''GdbBinaries21/GdbBinary3''"
    by blast
  with items dec show ?thesis
    unfolding Let_def by blast
qed

text \<open>
  Claim C1, as amended. Take a settings object whose map is not empty, has fewer than
  \<open>INT_MAX\<close> entries, names only binaries that are non-empty and contain no comma, and
  holds every tool chain number in at most one entry; let the registered actions be live
  and the store be one that the reader decodes. Then persisting the map with
  \<open>writeSettings\<close> and decoding the resulting store with
  \<open>gdbBinaryToolChainMapFromSettings\<close> yields a map with exactly the same
  (binary, tool chain) entries, iterated by ascending binary. The tool chains of one
  binary may come back in another order; when every binary has a single tool chain, the
  decoded map is the original one.
\<close>

theorem writeSettings_roundtrip:
  assumes items: "writeItems saWrite heap (map snd (m_items st)) settings = Inr settings1"
    and dec: "gdbBinaryToolChainMapFromSettings pf settings1 = Inr fromSettings"
    and nonempty: "m_gdbBinaryToolChainMap st \<noteq> []"
    and keys: "list_all (\<lambda>p. fst p \<noteq> [] \<and> CHR '','' \<notin> set (fst p)) (m_gdbBinaryToolChainMap st)"
    and dist: "distinct (map snd (m_gdbBinaryToolChainMap st))"
    and size: "int (length (m_gdbBinaryToolChainMap st)) < INT_MAX"
  shows "\<exists>r. writeThenRead pf saWrite heap st settings = Inr r
            \<and> mset r = mset (m_gdbBinaryToolChainMap st)
            \<and> sorted (map fst r)
            \<and> (sorted_wrt (<) (map fst (m_gdbBinaryToolChainMap st)) \<longrightarrow>
                  r = m_gdbBinaryToolChainMap st)"
proof -
  let ?m = "m_gdbBinaryToolChainMap st"
  have main: "\<exists>r. writeThenRead pf saWrite heap st settings = Inr r \<and> mset r = mset ?m"
  proof (cases "?m = fromSettings")
    case True
    then have "writeSettings pf saWrite heap st settings = Inr settings1"
      using items dec by (simp add: writeSettings_def)
    then have "writeThenRead pf saWrite heap st settings = Inr ?m"
      using dec True by (simp add: writeThenRead_def)
    then show ?thesis by simp
  next
    case False
    from nonempty obtain k v rest where m: "?m = (k, v) # rest"
      by (cases ?m) auto
    from keys have k: "k \<noteq> []" "CHR '','' \<notin> set k"
      and rest: "\<forall>p\<in>set rest. CHR '','' \<notin> set (fst p)"
      by (simp_all add: m list_all_iff)
    define sl where "sl = flatten k (k @ toolChainSuffix [v]) rest"
    have build: "buildSettingsList [] [] ?m = Inr sl"
      unfolding m sl_def by (rule buildSettingsList_start [OF k(1)])
    let ?s' = "writeSettingsList (sl @ [[]])
                 (QSettings_removeGroup gdbBinariesSettingsGroupC settings1)"
    have w: "writeSettings pf saWrite heap st settings = Inr ?s'"
      using items dec False build by (simp add: writeSettings_def)
    from size have "int (length rest) + 1 < INT_MAX" by (simp add: m)
    from read_back [OF k rest this sl_def]
    have rd: "readGdbBinaries ?s' 1 [] = Inr (foldl addPair [] ?m)"
      by (simp add: m)
    have ms: "mset (foldl addPair [] ?m) = mset ?m"
      using foldl_addPair_distinct [OF dist, of "[]"] by simp
    then have "foldl addPair [] ?m \<noteq> []"
      using nonempty by (metis mset_zero_iff)
    with rd have "gdbBinaryToolChainMapFromSettings pf ?s' = Inr (foldl addPair [] ?m)"
      by (simp add: gdbBinaryToolChainMapFromSettings_def)
    with w have "writeThenRead pf saWrite heap st settings = Inr (foldl addPair [] ?m)"
      by (simp add: writeThenRead_def)
    with ms show ?thesis by simp
  qed
  then obtain r where r: "writeThenRead pf saWrite heap st settings = Inr r"
    and ms: "mset r = mset ?m" by blast
  from r obtain s' where "gdbBinaryToolChainMapFromSettings pf s' = Inr r"
    by (auto simp: writeThenRead_def split: sum.splits)
  then have so: "sorted (map fst r)"
    by (rule sorted_gdbBinaryToolChainMapFromSettings)
  have "sorted_wrt (<) (map fst ?m) \<longrightarrow> r = ?m"
    using sorted_keys_unique [OF ms so] by blast
  with r ms so show ?thesis by blast
qed

theorem writeSettings_roundtrip_witness:
  "(let pf = \<lparr>Q_OS_UNIX = True, GCC = 0, LINUX_ICC = 1, OTHER = 200, UNKNOWN = 201\<rparr>;
        heap = [7 \<mapsto> \<lparr>m_value = True, m_defaultValue = False, m_settingsKey = ''VerboseLog''\<rparr>];
        saWrite = (\<lambda>a s. s(''DebugMode/'' @ m_settingsKey a \<mapsto> (if m_value a then ''true'' else ''false'')));
        settings = [''GdbBinaries21/GdbBinary1'' \<mapsto> ''gdb,5''];
        settings1 = [''GdbBinaries21/GdbBinary1'' \<mapsto> ''gdb,5'', ''DebugMode/VerboseLog'' \<mapsto> ''true''];
        st = \<lparr>m_items = [(3, 7)], m_gdbBinaryToolChainMap = [(''agdb'', 3), (''gdb'', 1)]\<rparr>;
        st2 = \<lparr>m_items = [(3, 7)], m_gdbBinaryToolChainMap = [(''agdb'', 3), (''gdb'', 2), (''gdb'', 1)]\<rparr>
    in writeItems saWrite heap (map snd (m_items st)) settings = Inr settings1
     \<and> gdbBinaryToolChainMapFromSettings pf settings1 = Inr [(''gdb'', 5)]
     \<and> m_gdbBinaryToolChainMap st \<noteq> []
     \<and> list_all (\<lambda>p. fst p \<noteq> [] \<and> CHR '','' \<notin> set (fst p)) (m_gdbBinaryToolChainMap st)
     \<and> distinct (map snd (m_gdbBinaryToolChainMap st))
     \<and> int (length (m_gdbBinaryToolChainMap st)) < INT_MAX
     \<and> sorted_wrt (<) (map fst (m_gdbBinaryToolChainMap st))
     \<and> writeThenRead pf saWrite heap st settings = Inr [(''agdb'', 3), (''gdb'', 1)]
     \<and> writeThenRead pf saWrite heap st2 settings = Inr [(''agdb'', 3), (''gdb'', 1), (''gdb'', 2)])"
proof -
  let ?pf = "\<lparr>Q_OS_UNIX = True, GCC = 0, LINUX_ICC = 1, OTHER = 200, UNKNOWN = 201\<rparr>"
  let ?heap = "[7 \<mapsto> \<lparr>m_value = True, m_defaultValue = False, m_settingsKey = ''VerboseLog''\<rparr>]"
  let ?saWrite = "\<lambda>(a :: bool SavedAction) (s :: QSettings).
        s(''DebugMode/'' @ m_settingsKey a \<mapsto> (if m_value a then ''true'' else ''false''))"
  let ?settings = "[''GdbBinaries21/GdbBinary1'' \<mapsto> ''gdb,5'']"
  let ?settings1 = "[''GdbBinaries21/GdbBinary1'' \<mapsto> ''gdb,5'', ''DebugMode/VerboseLog'' \<mapsto> ''true'']"
  let ?st = "\<lparr>m_items = [(3, 7)], m_gdbBinaryToolChainMap = [(''agdb'', 3), (''gdb'', 1)]\<rparr>"
  let ?st2 = "\<lparr>m_items = [(3, 7)], m_gdbBinaryToolChainMap = [(''agdb'', 3), (''gdb'', 2), (''gdb'', 1)]\<rparr>"
  have items: "writeItems ?saWrite ?heap (map snd (m_items ?st)) ?settings = Inr ?settings1"
    by (simp add: deref_def)
  have dec: "gdbBinaryToolChainMapFromSettings ?pf ?settings1 = Inr [(''gdb'', 5)]"
    by code_simp
  have nonempty: "m_gdbBinaryToolChainMap ?st \<noteq> []" by simp
  have keys: "list_all (\<lambda>p. fst p \<noteq> [] \<and> CHR '','' \<notin> set (fst p)) (m_gdbBinaryToolChainMap ?st)"
    by simp
  have dist: "distinct (map snd (m_gdbBinaryToolChainMap ?st))" by simp
  have size: "int (length (m_gdbBinaryToolChainMap ?st)) < INT_MAX"
    by (simp add: INT_MAX_def)
  have strict: "sorted_wrt (<) (map fst (m_gdbBinaryToolChainMap ?st))" by code_simp
  from writeSettings_roundtrip [OF items dec nonempty keys dist size] strict
  have same: "writeThenRead ?pf ?saWrite ?heap ?st ?settings = Inr [(''agdb'', 3), (''gdb'', 1)]"
    by auto
  have two: "writeThenRead ?pf ?saWrite ?heap ?st2 ?settings =
      Inr [(''agdb'', 3), (''gdb'', 1), (''gdb'', 2)]"
    by code_simp
  show ?thesis
    unfolding Let_def using items dec nonempty keys dist size strict same two by blast
qed

text \<open>
  The claim as it was stated fails. A binary with a comma is split into a binary and a
  tool chain \<open>0\<close>; two tool chains of one binary come back in the opposite order, which
  \<^verbatim>\<open>operator==\<close> of the map tells apart (so the next \<open>writeSettings\<close> writes again); an
  entry that occurs twice is read back once; and for an empty binary the writer calls
  \<^verbatim>\<open>back()\<close> on an empty list. In each of the four maps every tool chain belongs to one
  binary only.
\<close>

theorem writeSettings_roundtrip_counterexample:
  "writeThenRead \<lparr>Q_OS_UNIX = True, GCC = 0, LINUX_ICC = 1, OTHER = 200, UNKNOWN = 201\<rparr>
      (\<lambda>(a :: bool SavedAction) s. s) Map.empty
      \<lparr>m_items = [], m_gdbBinaryToolChainMap = [(''a,b'', 1)]\<rparr> Map.empty
     = Inr [(''a'', 1), (''a'', 0)]
   \<and> writeThenRead \<lparr>Q_OS_UNIX = True, GCC = 0, LINUX_ICC = 1, OTHER = 200, UNKNOWN = 201\<rparr>
      (\<lambda>(a :: bool SavedAction) s. s) Map.empty
      \<lparr>m_items = [], m_gdbBinaryToolChainMap = [(''gdb'', 2), (''gdb'', 1)]\<rparr> Map.empty
     = Inr [(''gdb'', 1), (''gdb'', 2)]
   \<and> writeThenRead \<lparr>Q_OS_UNIX = True, GCC = 0, LINUX_ICC = 1, OTHER = 200, UNKNOWN = 201\<rparr>
      (\<lambda>(a :: bool SavedAction) s. s) Map.empty
      \<lparr>m_items = [], m_gdbBinaryToolChainMap = [(''gdb'', 1), (''gdb'', 1)]\<rparr> Map.empty
     = Inr [(''gdb'', 1)]
   \<and> writeThenRead \<lparr>Q_OS_UNIX = True, GCC = 0, LINUX_ICC = 1, OTHER = 200, UNKNOWN = 201\<rparr>
      (\<lambda>(a :: bool SavedAction) s. s) Map.empty
      \<lparr>m_items = [], m_gdbBinaryToolChainMap = [('''', 1)]\<rparr> Map.empty
     = Inl EmptyListAccess"
  by code_simp

end
